theory Spec2Isabelle
  imports Main
begin

section \<open>JavaScript values seen by the Script class\<close>

text \<open>
  The Script class of js-reflection loads an ES module with a dynamic import and hands
  out its exports. The values it touches are modelled by the datatype below.

  \<^item> A number is an integer here (\<open>NaN\<close> and fractions are not represented).
  \<^item> An object is the table of its own data properties, in insertion order. Properties
    reached through the prototype chain are supplied by the host, see \<open>get_prop\<close>.
  \<^item> A function object \<open>Fun i n src\<close> has an identity \<open>i\<close>, the value \<open>n\<close> of its
    \<open>length\<close> property (the declared parameter count) and the text \<open>src\<close> that
    \<open>Function.prototype.toString\<close> returns for it. Classes are function objects too.
\<close>

datatype val =
    Undefined
  | Null
  | Bool bool
  | Num int
  | Str string
  | Arr "val list"
  | Obj "(string \<times> val) list"
  | Fun nat nat string

text \<open>Truthiness, as used by every \<open>if (!x)\<close> of the source.\<close>

fun truthy :: "val \<Rightarrow> bool" where
  "truthy Undefined = False"
| "truthy Null = False"
| "truthy (Bool b) = b"
| "truthy (Num n) = (n \<noteq> 0)"
| "truthy (Str s) = (s \<noteq> [])"
| "truthy (Arr xs) = True"
| "truthy (Obj ps) = True"
| "truthy (Fun i n src) = True"

subsection \<open>helpers.js: isClass and isFunction\<close>

text \<open>
  \<open>typeof obj === 'function'\<close> holds exactly for function objects.
\<close>

fun typeof_function :: "val \<Rightarrow> bool" where
  "typeof_function (Fun i n src) = True"
| "typeof_function _ = False"

text \<open>
  The characters matched by \<open>\s\<close> of a JavaScript regular expression, as far as an
  8-bit \<open>char\<close> can express them: tab, line feed, vertical tab, form feed, carriage
  return, space and no-break space.
\<close>

definition regex_space :: "char \<Rightarrow> bool" where
  "regex_space c \<longleftrightarrow> c \<in> set [CHR 0x09, CHR 0x0A, CHR 0x0B, CHR 0x0C, CHR 0x0D, CHR 0x20, CHR 0xA0]"

text \<open>The test \<open>/^class\s/.test(text)\<close>: the text starts with \<open>class\<close> and one space character.\<close>

fun class_regex_test :: "string \<Rightarrow> bool" where
  "class_regex_test (c1 # c2 # c3 # c4 # c5 # c6 # rest) =
     ([c1, c2, c3, c4, c5] = ''class'' \<and> regex_space c6)"
| "class_regex_test _ = False"

fun function_toString :: "val \<Rightarrow> string" where
  "function_toString (Fun i n src) = src"
| "function_toString _ = []"

definition isClass :: "val \<Rightarrow> bool" where
  "isClass obj \<longleftrightarrow> typeof_function obj \<and> class_regex_test (function_toString obj)"

definition isFunction :: "val \<Rightarrow> bool" where
  "isFunction obj \<longleftrightarrow> typeof_function obj"


section \<open>The Script class: errors, property access and the effects of a method\<close>

text \<open>
  The class is taken from src/load/helpers.js, which holds every method; the classes of
  src/load/script.js, src/path/script.js and src/lib/path/script.js are earlier versions
  with fewer methods.

  A thrown value is an \<open>Error\<close> built by the Script class from a message, a
  \<open>TypeError\<close> raised by the language itself, or a \<open>Foreign\<close> failure raised
  outside the class: the rejection of the dynamic import, or whatever a callee throws.
\<close>

datatype error = Error string | TypeError string | Foreign string

definition OBJECT_NOT_DEFINED_ERROR :: error where
  "OBJECT_NOT_DEFINED_ERROR = Error ''Object not defined''"

definition OBJECT_NOT_FOUND_ERROR :: string where
  "OBJECT_NOT_FOUND_ERROR = ''Object not found''"

definition OBJECT_IS_NOT_A_FUNCTION_ERROR :: string where
  "OBJECT_IS_NOT_A_FUNCTION_ERROR = ''Object is not a function''"

definition OBJECT_IS_NOT_A_CLASS_ERROR :: string where
  "OBJECT_IS_NOT_A_CLASS_ERROR = ''Object is not a class''"

definition PROPERTY_NOT_FOUND_ERROR :: string where
  "PROPERTY_NOT_FOUND_ERROR = ''Property not found''"

definition MISMATCHED_NUMBER_OF_PARAMETERS_ERROR :: string where
  "MISMATCHED_NUMBER_OF_PARAMETERS_ERROR = ''Mismatched number of parameters''"

text \<open>
  The namespace object of a loaded module: its exports by name. A namespace object has
  no prototype, so a name that is not exported reads as \<open>undefined\<close>.
\<close>

type_synonym module = "(string \<times> val) list"

definition module_get :: "module \<Rightarrow> string \<Rightarrow> val" where
  "module_get m k = (case map_of m k of Some v \<Rightarrow> v | None \<Rightarrow> Undefined)"

text \<open>
  \<open>script?.[objectName]\<close>, where \<open>script\<close> is what \<open>loadedScript()\<close> returned:
  \<open>None\<close> stands for \<open>undefined\<close>, which the optional chain turns into \<open>undefined\<close>.
\<close>

definition optional_get :: "module option \<Rightarrow> string \<Rightarrow> val" where
  "optional_get script k = (case script of None \<Rightarrow> Undefined | Some m \<Rightarrow> module_get m k)"

text \<open>\<open>script[objectName]\<close> without the optional chain: reading from \<open>undefined\<close> throws.\<close>

definition script_get :: "module option \<Rightarrow> string \<Rightarrow> error + val" where
  "script_get script k =
     (case script of
        None \<Rightarrow> Inl (TypeError ''Cannot read properties of undefined'')
      | Some m \<Rightarrow> Inr (module_get m k))"

text \<open>
  \<open>object[propertyName]\<close>. Own data properties come from the object's table. Whatever
  is not an own property is looked up along the prototype chain, which the model takes
  as the parameter \<open>inh\<close> (\<open>\<lambda>v k. Undefined\<close> for objects without inherited members).
  The \<open>length\<close> of a function, a string and an array is fixed by the value itself.
  Accessor properties are not modelled.
\<close>

fun get_prop :: "(val \<Rightarrow> string \<Rightarrow> val) \<Rightarrow> val \<Rightarrow> string \<Rightarrow> error + val" where
  "get_prop inh Undefined k = Inl (TypeError ''Cannot read properties of undefined'')"
| "get_prop inh Null k = Inl (TypeError ''Cannot read properties of null'')"
| "get_prop inh (Obj ps) k =
     Inr (case map_of ps k of Some v \<Rightarrow> v | None \<Rightarrow> inh (Obj ps) k)"
| "get_prop inh (Fun i n src) k =
     Inr (if k = ''length'' then Num (int n) else inh (Fun i n src) k)"
| "get_prop inh (Str s) k =
     Inr (if k = ''length'' then Num (int (length s)) else inh (Str s) k)"
| "get_prop inh (Arr xs) k =
     Inr (if k = ''length'' then Num (int (length xs)) else inh (Arr xs) k)"
| "get_prop inh (Bool b) k = Inr (inh (Bool b) k)"
| "get_prop inh (Num n) k = Inr (inh (Num n) k)"

text \<open>
  What an async method of Script does, step by step: it returns a value, throws, awaits
  \<open>this.loadedScript()\<close> and goes on with the script it gets, or invokes a function
  object (\<open>fn(...)\<close> is a \<open>PlainCall\<close>, \<open>new Class(...)\<close> a \<open>Construct\<close>) and goes
  on with its result. No method catches anything, so a failure of the awaited load or of
  a callee ends the method with that failure; the continuations are for success only.
\<close>

datatype callkind = PlainCall | Construct

datatype act =
    Return val
  | Throw error
  | AwaitLoadedScript "module option \<Rightarrow> act"
  | Invoke callkind val "val list" "val \<Rightarrow> act"

text \<open>\<open>const x = await this.m(...); rest\<close>: run \<open>m\<close>, then \<open>rest\<close> on its value.\<close>

primrec await_then :: "act \<Rightarrow> (val \<Rightarrow> act) \<Rightarrow> act" where
  "await_then (Return v) k = k v"
| "await_then (Throw e) k = Throw e"
| "await_then (AwaitLoadedScript f) k = AwaitLoadedScript (\<lambda>script. await_then (f script) k)"
| "await_then (Invoke c fn args f) k = Invoke c fn args (\<lambda>v. await_then (f v) k)"

subsection \<open>getObject, getObjectProperty, getNestedObjectProperty\<close>

text \<open>
  The methods take the script path (the text that \<open>this.#scriptPath\<close> contributes to
  a message) as their first argument. A name is a string, falsy exactly when it is empty.
\<close>

definition getObject :: "string \<Rightarrow> string \<Rightarrow> act" where
  "getObject scriptPath objectName =
     (if objectName = [] then Throw OBJECT_NOT_DEFINED_ERROR
      else AwaitLoadedScript (\<lambda>script.
        if \<not> truthy (optional_get script objectName)
        then Throw (Error (OBJECT_NOT_FOUND_ERROR @ '': '' @ scriptPath @ '', '' @ objectName))
        else (case script_get script objectName of
                Inl e \<Rightarrow> Throw e
              | Inr object \<Rightarrow> Return object)))"

definition getObjectProperty ::
  "(val \<Rightarrow> string \<Rightarrow> val) \<Rightarrow> string \<Rightarrow> string \<Rightarrow> string \<Rightarrow> act" where
  "getObjectProperty inh scriptPath objectName propertyName =
     await_then (getObject scriptPath objectName) (\<lambda>object.
       case get_prop inh object propertyName of
         Inl e \<Rightarrow> Throw e
       | Inr property \<Rightarrow>
           if \<not> truthy property
           then Throw (Error (PROPERTY_NOT_FOUND_ERROR @ '': '' @ scriptPath @ '', ''
                                @ objectName @ ''.'' @ propertyName))
           else Return property)"

text \<open>The \<open>for ... of\<close> loop of getNestedObjectProperty over the remaining names.\<close>

fun nested_loop ::
  "(val \<Rightarrow> string \<Rightarrow> val) \<Rightarrow> string \<Rightarrow> string \<Rightarrow> val \<Rightarrow> string list \<Rightarrow> act" where
  "nested_loop inh scriptPath objectName object [] = Return object"
| "nested_loop inh scriptPath objectName object (propertyName # propertyNames) =
     (case get_prop inh object propertyName of
        Inl e \<Rightarrow> Throw e
      | Inr property \<Rightarrow>
          if \<not> truthy property
          then Throw (Error (PROPERTY_NOT_FOUND_ERROR @ '': '' @ scriptPath @ '', ''
                               @ objectName @ ''.'' @ propertyName))
          else nested_loop inh scriptPath objectName property propertyNames)"

definition getNestedObjectProperty ::
  "(val \<Rightarrow> string \<Rightarrow> val) \<Rightarrow> string \<Rightarrow> string \<Rightarrow> string list \<Rightarrow> act" where
  "getNestedObjectProperty inh scriptPath objectName propertyNames =
     await_then (getObject scriptPath objectName) (\<lambda>object.
       nested_loop inh scriptPath objectName object propertyNames)"

subsection \<open>getFunction, getClass and the call methods\<close>

definition getFunction :: "string \<Rightarrow> string \<Rightarrow> act" where
  "getFunction scriptPath functionName =
     await_then (getObject scriptPath functionName) (\<lambda>object.
       if \<not> isFunction object
       then Throw (Error (OBJECT_IS_NOT_A_FUNCTION_ERROR @ '': '' @ scriptPath @ '', ''
                            @ functionName))
       else Return object)"

definition getClass :: "string \<Rightarrow> string \<Rightarrow> act" where
  "getClass scriptPath className =
     await_then (getObject scriptPath className) (\<lambda>object.
       if \<not> isClass object
       then Throw (Error (OBJECT_IS_NOT_A_CLASS_ERROR @ '': '' @ scriptPath @ '', ''
                            @ className))
       else Return object)"

text \<open>
  \<open>new Class(parameters)\<close>: the rest parameter \<open>parameters\<close> is an array, and it is
  passed as it is, as the one argument of the constructor.
\<close>

definition callNew :: "string \<Rightarrow> string \<Rightarrow> val list \<Rightarrow> act" where
  "callNew scriptPath className parameters =
     await_then (getClass scriptPath className) (\<lambda>Class.
       Invoke Construct Class [Arr parameters] Return)"

text \<open>
  \<open>x.length !== parameters.length\<close> compares the \<open>length\<close> property of the target
  with the number of arguments.
\<close>

definition length_mismatch ::
  "(val \<Rightarrow> string \<Rightarrow> val) \<Rightarrow> val \<Rightarrow> val list \<Rightarrow> error + bool" where
  "length_mismatch inh fn parameters =
     (case get_prop inh fn ''length'' of
        Inl e \<Rightarrow> Inl e
      | Inr len \<Rightarrow> Inr (len \<noteq> Num (int (length parameters))))"

definition safeCallNew ::
  "(val \<Rightarrow> string \<Rightarrow> val) \<Rightarrow> string \<Rightarrow> string \<Rightarrow> val list \<Rightarrow> act" where
  "safeCallNew inh scriptPath className parameters =
     await_then (getClass scriptPath className) (\<lambda>Class.
       case length_mismatch inh Class parameters of
         Inl e \<Rightarrow> Throw e
       | Inr differs \<Rightarrow>
           if differs
           then Throw (Error (MISMATCHED_NUMBER_OF_PARAMETERS_ERROR @ '': '' @ scriptPath
                                @ '', '' @ className))
           else Invoke Construct Class [Arr parameters] Return)"

definition callFunction :: "string \<Rightarrow> string \<Rightarrow> val list \<Rightarrow> act" where
  "callFunction scriptPath functionName parameters =
     await_then (getFunction scriptPath functionName) (\<lambda>fn.
       Invoke PlainCall fn parameters Return)"

definition safeCallFunction ::
  "(val \<Rightarrow> string \<Rightarrow> val) \<Rightarrow> string \<Rightarrow> string \<Rightarrow> val list \<Rightarrow> act" where
  "safeCallFunction inh scriptPath functionName parameters =
     await_then (getFunction scriptPath functionName) (\<lambda>fn.
       case length_mismatch inh fn parameters of
         Inl e \<Rightarrow> Throw e
       | Inr differs \<Rightarrow>
           if differs
           then Throw (Error (MISMATCHED_NUMBER_OF_PARAMETERS_ERROR @ '': '' @ scriptPath
                                @ '', '' @ functionName))
           else Invoke PlainCall fn parameters Return)"

definition callObjectMethod ::
  "(val \<Rightarrow> string \<Rightarrow> val) \<Rightarrow> string \<Rightarrow> string \<Rightarrow> string \<Rightarrow> val list \<Rightarrow> act" where
  "callObjectMethod inh scriptPath objectName methodName parameters =
     await_then (getObjectProperty inh scriptPath objectName methodName) (\<lambda>method.
       if \<not> isFunction method
       then Throw (Error (OBJECT_IS_NOT_A_FUNCTION_ERROR @ '': '' @ scriptPath @ '', ''
                            @ objectName @ ''.'' @ methodName))
       else Invoke PlainCall method parameters Return)"

definition safeCallObjectMethod ::
  "(val \<Rightarrow> string \<Rightarrow> val) \<Rightarrow> string \<Rightarrow> string \<Rightarrow> string \<Rightarrow> val list \<Rightarrow> act" where
  "safeCallObjectMethod inh scriptPath objectName methodName parameters =
     await_then (getObjectProperty inh scriptPath objectName methodName) (\<lambda>method.
       if \<not> isFunction method
       then Throw (Error (OBJECT_IS_NOT_A_FUNCTION_ERROR @ '': '' @ scriptPath @ '', ''
                            @ objectName @ ''.'' @ methodName))
       else (case length_mismatch inh method parameters of
               Inl e \<Rightarrow> Throw e
             | Inr differs \<Rightarrow>
                 if differs
                 then Throw (Error (MISMATCHED_NUMBER_OF_PARAMETERS_ERROR @ '': ''
                                      @ scriptPath @ '', '' @ objectName @ ''.'' @ methodName))
                 else Invoke PlainCall method parameters Return))"

subsection \<open>Running a method\<close>

text \<open>
  \<open>exec a ld app\<close> runs the method \<open>a\<close> where awaiting \<open>loadedScript()\<close> yields
  \<open>ld\<close> (\<open>Inl\<close>: it rejects) and where the host applies function objects as \<open>app\<close>
  says. It returns the invocations made, in order, and the outcome of the method.
\<close>

type_synonym invocation = "callkind \<times> val \<times> val list"

type_synonym applier = "callkind \<Rightarrow> val \<Rightarrow> val list \<Rightarrow> error + val"

primrec exec ::
  "act \<Rightarrow> error + module option \<Rightarrow> applier \<Rightarrow> invocation list \<times> (error + val)" where
  "exec (Return v) ld app = ([], Inr v)"
| "exec (Throw e) ld app = ([], Inl e)"
| "exec (AwaitLoadedScript f) ld app =
     (case ld of Inl e \<Rightarrow> ([], Inl e) | Inr script \<Rightarrow> exec (f script) ld app)"
| "exec (Invoke c fn args f) ld app =
     (case app c fn args of
        Inl e \<Rightarrow> ([(c, fn, args)], Inl e)
      | Inr v \<Rightarrow> (case exec (f v) ld app of (tr, r) \<Rightarrow> ((c, fn, args) # tr, r)))"

text \<open>
  The module of the running example: \<open>Vector = class {constructor(x){this.x = x}}\<close>,
  a function \<open>f\<close> of three parameters and a nested object
  \<open>a = {b: {e: ""}, n: 0}\<close>.
\<close>

definition Vector :: val where
  "Vector = Fun 1 1 ''class {constructor(x){this.x = x}}''"

definition f3 :: val where
  "f3 = Fun 2 3 ''function f(a, b, c) { return a }''"

definition example_module :: module where
  "example_module =
     [(''Vector'', Vector), (''f'', f3),
      (''a'', Obj [(''b'', Obj [(''e'', Str [])]), (''n'', Num 0)])]"

text \<open>A parameter that has no argument is \<open>undefined\<close>.\<close>

definition argument :: "val list \<Rightarrow> nat \<Rightarrow> val" where
  "argument args i = (if i < length args then args ! i else Undefined)"

text \<open>
  The host applying the two function objects of the example: constructing a Vector
  stores its first argument in the field \<open>x\<close>; a class cannot be called without
  \<open>new\<close>; \<open>f\<close> returns its first argument.
\<close>

definition example_apply :: applier where
  "example_apply c fn args =
     (if fn = Vector then
        (case c of
           Construct \<Rightarrow> Inr (Obj [(''x'', argument args 0)])
         | PlainCall \<Rightarrow> Inl (TypeError ''Class constructor cannot be invoked without new''))
      else if fn = f3 then
        (case c of
           PlainCall \<Rightarrow> Inr (argument args 0)
         | Construct \<Rightarrow> Inr (Obj []))
      else Inl (TypeError ''not a function''))"

definition no_inherited :: "val \<Rightarrow> string \<Rightarrow> val" where
  "no_inherited v k = Undefined"

section \<open>loadedScript and the event loop\<close>

text \<open>
  Every invocation of \<open>loadedScript()\<close> is an activation, numbered in the order of the
  invocations. An activation is suspended at \<open>await this.#loadingScript\<close> (on the
  promise chain of the import it started), suspended on the promise that its listener
  of the \<open>load\<close> event resolves, resumable (the promise it awaits is settled and
  its continuation is queued: \<open>None\<close> when it goes on to \<open>return this.#loadedScript\<close>,
  \<open>Some e\<close> when the \<open>await\<close> throws \<open>e\<close>), or finished.
\<close>

datatype status =
    AwaitingLoad nat
  | AwaitingEvent
  | Resumable "error option"
  | Returned "module option"
  | Threw error

text \<open>
  The private fields of a Script, and what the event loop holds for it:
  \<open>loadedScript\<close> is \<open>#loadedScript\<close> (\<open>None\<close>: undefined), \<open>loadingScript\<close> is
  \<open>#loadingScript\<close> (\<open>None\<close>: undefined or null, \<open>Some i\<close>: the promise chain of the
  i-th import), \<open>listeners\<close> are the activations whose listener of \<open>load\<close> is
  registered on \<open>#eventEmitter\<close>, \<open>pending\<close> are the imports started and not yet
  settled, \<open>importCount\<close> counts the evaluations of \<open>import(...)\<close>, and \<open>calls\<close> holds
  the status of every activation.
\<close>

record loader =
  loadedScript :: "module option"
  loadingScript :: "nat option"
  listeners :: "nat list"
  pending :: "nat list"
  importCount :: nat
  calls :: "status list"

definition fresh :: loader where
  "fresh = \<lparr>loadedScript = None, loadingScript = None, listeners = [], pending = [],
             importCount = 0, calls = []\<rparr>"

text \<open>
  The synchronous part of \<open>loadedScript()\<close> in src/load/script.js (the copy in
  src/load/helpers.js differs only in what the listener passes to \<open>resolve\<close>, which
  nobody reads): up to its \<open>return\<close> or its first \<open>await\<close>.
\<close>

definition call_loadedScript :: "loader \<Rightarrow> loader" where
  "call_loadedScript s =
     (case loadedScript s of
        Some script \<Rightarrow> s\<lparr>calls := calls s @ [Returned (Some script)]\<rparr>
      | None \<Rightarrow>
          (case loadingScript s of
             Some p \<Rightarrow>
               s\<lparr>listeners := listeners s @ [length (calls s)],
                 calls := calls s @ [AwaitingEvent]\<rparr>
           | None \<Rightarrow>
               s\<lparr>loadingScript := Some (importCount s),
                 pending := pending s @ [importCount s],
                 importCount := Suc (importCount s),
                 calls := calls s @ [AwaitingLoad (importCount s)]\<rparr>))"

text \<open>
  The same in src/lib/path/script.js: when \<open>#loadingScript\<close> is set, the function
  \<open>waitForEvent\<close> is defined and never called, and control falls through to the import.
\<close>

definition lib_call_loadedScript :: "loader \<Rightarrow> loader" where
  "lib_call_loadedScript s =
     (case loadedScript s of
        Some script \<Rightarrow> s\<lparr>calls := calls s @ [Returned (Some script)]\<rparr>
      | None \<Rightarrow>
          s\<lparr>loadingScript := Some (importCount s),
            pending := pending s @ [importCount s],
            importCount := Suc (importCount s),
            calls := calls s @ [AwaitingLoad (importCount s)]\<rparr>)"

text \<open>
  \<open>this.#eventEmitter.emit('load')\<close> runs the listeners in the order of their
  registration; a listener resolves the promise of its activation, which has an effect
  the first time only. Listeners registered with \<open>on\<close> stay registered.
\<close>

definition wake :: "nat \<Rightarrow> status list \<Rightarrow> status list" where
  "wake c cs = (if c < length cs \<and> cs ! c = AwaitingEvent then cs[c := Resumable None] else cs)"

definition emit_load :: "loader \<Rightarrow> loader" where
  "emit_load s = s\<lparr>calls := fold wake (listeners s) (calls s)\<rparr>"

text \<open>The promise chain of import \<open>i\<close> settles: the activation awaiting it becomes resumable.\<close>

definition settle_chain :: "nat \<Rightarrow> error option \<Rightarrow> status list \<Rightarrow> status list" where
  "settle_chain i r cs = map (\<lambda>st. if st = AwaitingLoad i then Resumable r else st) cs"

text \<open>
  Import \<open>i\<close> fulfils with \<open>script\<close> and the \<open>then\<close> handler runs: it stores the
  script, emits \<open>load\<close> and returns the script, which fulfils the chain.
\<close>

definition import_fulfilled :: "nat \<Rightarrow> module \<Rightarrow> loader \<Rightarrow> loader" where
  "import_fulfilled i script s =
     (if i \<in> set (pending s) then
        (let s' = emit_load (s\<lparr>loadedScript := Some script\<rparr>)
         in s'\<lparr>pending := removeAll i (pending s'),
               calls := settle_chain i None (calls s')\<rparr>)
      else s)"

text \<open>
  Import \<open>i\<close> rejects with \<open>e\<close> and the \<open>catch\<close> handler runs: it sets
  \<open>#loadingScript\<close> to null and throws \<open>e\<close> again, which rejects the chain.
\<close>

definition import_rejected :: "nat \<Rightarrow> error \<Rightarrow> loader \<Rightarrow> loader" where
  "import_rejected i e s =
     (if i \<in> set (pending s) then
        s\<lparr>loadingScript := None,
          pending := removeAll i (pending s),
          calls := settle_chain i (Some e) (calls s)\<rparr>
      else s)"

text \<open>
  The continuation of activation \<open>c\<close> runs: after the \<open>await\<close> it returns
  \<open>this.#loadedScript\<close> as it is then, or the \<open>await\<close> throws.
\<close>

definition resume :: "nat \<Rightarrow> loader \<Rightarrow> loader" where
  "resume c s =
     (if c < length (calls s) then
        (case calls s ! c of
           Resumable None \<Rightarrow> s\<lparr>calls := (calls s)[c := Returned (loadedScript s)]\<rparr>
         | Resumable (Some e) \<Rightarrow> s\<lparr>calls := (calls s)[c := Threw e]\<rparr>
         | _ \<Rightarrow> s)
      else s)"

text \<open>
  What can happen to a Script between two turns of the event loop. An event that is not
  enabled (an import that is not pending, an activation that is not resumable) leaves
  the state as it is. \<open>step\<close> takes the synchronous part of \<open>loadedScript()\<close> as its
  first argument, so that both variants run on the same event loop.
\<close>

datatype event = Call | Fulfil nat module | Reject nat error | Resume nat

fun step :: "(loader \<Rightarrow> loader) \<Rightarrow> event \<Rightarrow> loader \<Rightarrow> loader" where
  "step entry Call s = entry s"
| "step entry (Fulfil i script) s = import_fulfilled i script s"
| "step entry (Reject i e) s = import_rejected i e s"
| "step entry (Resume c) s = resume c s"

definition run :: "(loader \<Rightarrow> loader) \<Rightarrow> event list \<Rightarrow> loader \<Rightarrow> loader" where
  "run entry evs s = fold (step entry) evs s"

fun is_Reject :: "event \<Rightarrow> bool" where
  "is_Reject (Reject i e) = True"
| "is_Reject _ = False"

fun is_Fulfil :: "event \<Rightarrow> bool" where
  "is_Fulfil (Fulfil i script) = True"
| "is_Fulfil _ = False"

subsection \<open>A method on a loader\<close>

text \<open>
  \<open>perform a entry app s\<close> runs the method \<open>a\<close> on the loader \<open>s\<close> until it finishes or
  suspends in \<open>await this.loadedScript()\<close>; in the second case it gives the activation
  waited for and what the method does with the script once that activation returns.
\<close>

datatype progress = Finished "error + val" | Suspended nat "module option \<Rightarrow> act"

primrec perform ::
  "act \<Rightarrow> (loader \<Rightarrow> loader) \<Rightarrow> applier \<Rightarrow> loader \<Rightarrow> loader \<times> progress" where
  "perform (Return v) entry app s = (s, Finished (Inr v))"
| "perform (Throw e) entry app s = (s, Finished (Inl e))"
| "perform (AwaitLoadedScript f) entry app s =
     (case calls (entry s) ! length (calls s) of
        Returned script \<Rightarrow> perform (f script) entry app (entry s)
      | Threw e \<Rightarrow> (entry s, Finished (Inl e))
      | _ \<Rightarrow> (entry s, Suspended (length (calls s)) f))"
| "perform (Invoke c fn args f) entry app s =
     (case app c fn args of
        Inl e \<Rightarrow> (s, Finished (Inl e))
      | Inr v \<Rightarrow> perform (f v) entry app s)"

text \<open>A suspended method goes on when the activation it waits for has finished.\<close>

definition continue_method ::
  "nat \<Rightarrow> (module option \<Rightarrow> act) \<Rightarrow> (loader \<Rightarrow> loader) \<Rightarrow> applier \<Rightarrow> loader
     \<Rightarrow> loader \<times> progress" where
  "continue_method c f entry app s =
     (if c < length (calls s) then
        (case calls s ! c of
           Returned script \<Rightarrow> perform (f script) entry app s
         | Threw e \<Rightarrow> (s, Finished (Inl e))
         | _ \<Rightarrow> (s, Suspended c f))
      else (s, Suspended c f))"

text \<open>
  The invariant of the loader of src/load: at most one import is pending, and while one
  is pending \<open>#loadingScript\<close> is set and \<open>#loadedScript\<close> is not.
\<close>

definition single_flight :: "loader \<Rightarrow> bool" where
  "single_flight s \<longleftrightarrow>
     length (pending s) \<le> 1 \<and>
     (pending s \<noteq> [] \<longrightarrow> loadingScript s \<noteq> None \<and> loadedScript s = None)"

text \<open>
  Two more invariants of that loader. As long as no import has failed, at most one
  import has been started, and if one has, \<open>#loadingScript\<close> or \<open>#loadedScript\<close>
  is set. An activation that has returned has returned the script in \<open>#loadedScript\<close>,
  and an activation about to return finds \<open>#loadedScript\<close> set.
\<close>

definition started_once :: "loader \<Rightarrow> bool" where
  "started_once s \<longleftrightarrow>
     importCount s \<le> 1 \<and>
     (importCount s = 1 \<longrightarrow> loadingScript s \<noteq> None \<or> loadedScript s \<noteq> None)"

definition returns_loaded :: "loader \<Rightarrow> bool" where
  "returns_loaded s \<longleftrightarrow>
     (\<forall>st \<in> set (calls s).
        (\<forall>r. st = Returned r \<longrightarrow> r \<noteq> None \<and> r = loadedScript s) \<and>
        (st = Resumable None \<longrightarrow> loadedScript s \<noteq> None))"

section \<open>Unfolding and evaluation\<close>

lemmas method_defs =
  getObject_def getObjectProperty_def getNestedObjectProperty_def getFunction_def getClass_def
  callNew_def safeCallNew_def callFunction_def safeCallFunction_def callObjectMethod_def
  safeCallObjectMethod_def length_mismatch_def optional_get_def script_get_def module_get_def
  isClass_def isFunction_def regex_space_def
  OBJECT_NOT_DEFINED_ERROR_def OBJECT_NOT_FOUND_ERROR_def OBJECT_IS_NOT_A_FUNCTION_ERROR_def
  OBJECT_IS_NOT_A_CLASS_ERROR_def PROPERTY_NOT_FOUND_ERROR_def
  MISMATCHED_NUMBER_OF_PARAMETERS_ERROR_def

lemmas example_defs =
  example_module_def example_apply_def Vector_def f3_def argument_def no_inherited_def

lemmas loader_defs =
  run_def fresh_def call_loadedScript_def lib_call_loadedScript_def import_fulfilled_def
  import_rejected_def resume_def emit_load_def wake_def settle_chain_def

section \<open>Sequencing of methods\<close>

lemma await_then_Return: "await_then a Return = a"
  by (induction a) simp_all

lemma await_then_assoc:
  "await_then (await_then a k) h = await_then a (\<lambda>v. await_then (k v) h)"
  by (induction a) simp_all

lemma exec_await_then:
  "exec (await_then a k) ld app =
     (case exec a ld app of
        (tr, Inl e) \<Rightarrow> (tr, Inl e)
      | (tr, Inr v) \<Rightarrow> (case exec (k v) ld app of (tr', r) \<Rightarrow> (tr @ tr', r)))"
  by (induction a) (auto split: sum.splits prod.splits)

section \<open>Resolving members\<close>

lemma exec_getObject:
  "exec (getObject p n) (Inr (Some m)) app =
     ([], if n = [] then Inl OBJECT_NOT_DEFINED_ERROR
          else if \<not> truthy (module_get m n)
          then Inl (Error (OBJECT_NOT_FOUND_ERROR @ '': '' @ p @ '', '' @ n))
          else Inr (module_get m n))"
  by (simp add: getObject_def optional_get_def script_get_def)

text \<open>What getObject returns is truthy, so reading a property of it cannot throw.\<close>

lemma exec_getObject_truthy: "exec (getObject p n) ld app = (tr, Inr v) \<Longrightarrow> truthy v"
  by (auto simp: getObject_def script_get_def optional_get_def
           split: sum.splits if_splits option.splits)

lemma get_prop_truthy: "truthy obj \<Longrightarrow> \<exists>v. get_prop inh obj k = Inr v"
  by (cases obj) simp_all

lemma exec_getObjectProperty:
  "exec (getObject p n) ld app = (tr, Inr obj) \<Longrightarrow> get_prop inh obj seg = Inr v \<Longrightarrow>
   exec (getObjectProperty inh p n seg) ld app =
     (tr, if \<not> truthy v
          then Inl (Error (PROPERTY_NOT_FOUND_ERROR @ '': '' @ p @ '', '' @ n @ ''.'' @ seg))
          else Inr v)"
  by (simp add: getObjectProperty_def exec_await_then)

lemma nested_loop_append:
  "nested_loop inh p n obj (pre @ rest) =
     await_then (nested_loop inh p n obj pre) (\<lambda>v. nested_loop inh p n v rest)"
  by (induction pre arbitrary: obj) (auto split: sum.splits)

lemma getNested_append:
  "getNestedObjectProperty inh p n (pre @ rest) =
     await_then (getNestedObjectProperty inh p n pre) (\<lambda>v. nested_loop inh p n v rest)"
  by (simp add: getNestedObjectProperty_def nested_loop_append await_then_assoc)

lemma exec_getNested_failed_prefix:
  "exec (getNestedObjectProperty inh p n pre) ld app = (tr, Inl e) \<Longrightarrow>
   exec (getNestedObjectProperty inh p n (pre @ rest)) ld app = (tr, Inl e)"
  by (simp add: getNested_append exec_await_then)

lemma exec_getNested_next:
  "exec (getNestedObjectProperty inh p n pre) ld app = (tr, Inr obj) \<Longrightarrow>
   exec (getNestedObjectProperty inh p n (pre @ seg # rest)) ld app =
     (case exec (nested_loop inh p n obj (seg # rest)) ld app of (tr', r) \<Rightarrow> (tr @ tr', r))"
  by (simp add: getNested_append exec_await_then)

text \<open>
  C4. The claim says that the error of a failed walk names the full dotted path walked so
  far, and that the walk returns the final value whenever every segment exists. Neither
  holds: in the example module, where \<open>a.b\<close> exists and \<open>a.b.c\<close> does not, the walk
  along \<open>b\<close>, \<open>c\<close> fails with the message \<open>Property not found: p, a.c\<close>, which
  leaves \<open>b\<close> out; and the walk along \<open>n\<close> fails although \<open>a\<close> has the property
  \<open>n\<close>, because its value is 0.
\<close>

theorem nested_walk_counterexample:
  "exec (getNestedObjectProperty no_inherited ''p'' ''a'' [''b'', ''c''])
        (Inr (Some example_module)) example_apply
     = ([], Inl (Error ''Property not found: p, a.c'')) \<and>
   ''Property not found: p, a.c'' \<noteq> ''Property not found: p, a.b.c'' \<and>
   map_of [(''b'', Obj [(''e'', Str [])]), (''n'', Num 0)] ''n'' = Some (Num 0) \<and>
   exec (getNestedObjectProperty no_inherited ''p'' ''a'' [''n''])
        (Inr (Some example_module)) example_apply
     = ([], Inl (Error ''Property not found: p, a.n''))"
  by (simp add: method_defs example_defs)

text \<open>
  C4, as amended. getNestedObjectProperty walks the segments in order. After a prefix
  that was walked with success, the next segment yields its value when that value is
  truthy, and otherwise (the segment is absent, or bound to a falsy value) the walk
  fails with the error \<open>Property not found\<close>, whose message carries the script path,
  the name of the top-level member and that one segment. A walk that has failed fails in
  the same way whatever segments follow: they are not examined.
\<close>

theorem nested_walk_short_circuits:
  "(exec (getNestedObjectProperty inh p n pre) ld app = (tr, Inr obj) \<and>
    get_prop inh obj seg = Inr v \<longrightarrow>
      exec (getNestedObjectProperty inh p n (pre @ [seg])) ld app =
        (tr, if truthy v then Inr v
             else Inl (Error (PROPERTY_NOT_FOUND_ERROR @ '': '' @ p @ '', '' @ n @ ''.'' @ seg)))) \<and>
   (exec (getNestedObjectProperty inh p n pre') ld app = (tr', Inl e) \<longrightarrow>
      exec (getNestedObjectProperty inh p n (pre' @ rest)) ld app = (tr', Inl e))"
  by (simp add: exec_getNested_next exec_getNested_failed_prefix)

theorem nested_walk_short_circuits_witness:
  "exec (getNestedObjectProperty no_inherited ''p'' ''a'' [''b''])
        (Inr (Some example_module)) example_apply = ([], Inr (Obj [(''e'', Str [])])) \<and>
   get_prop no_inherited (Obj [(''e'', Str [])]) ''c'' = Inr Undefined \<and>
   exec (getNestedObjectProperty no_inherited ''p'' ''a'' ([''b''] @ [''c'']))
        (Inr (Some example_module)) example_apply
     = ([], Inl (Error ''Property not found: p, a.c'')) \<and>
   exec (getNestedObjectProperty no_inherited ''p'' ''a'' ([''b'', ''c''] @ [''d'', ''e'']))
        (Inr (Some example_module)) example_apply
     = ([], Inl (Error ''Property not found: p, a.c''))"
proof -
  let ?ld = "Inr (Some example_module) :: error + module option"
  have h1: "exec (getNestedObjectProperty no_inherited ''p'' ''a'' [''b'']) ?ld example_apply
              = ([], Inr (Obj [(''e'', Str [])]))"
    by (simp add: method_defs example_defs)
  have h2: "get_prop no_inherited (Obj [(''e'', Str [])]) ''c'' = Inr Undefined"
    by (simp add: no_inherited_def)
  have h3: "exec (getNestedObjectProperty no_inherited ''p'' ''a'' [''b'', ''c'']) ?ld example_apply
              = ([], Inl (Error ''Property not found: p, a.c''))"
    by (simp add: method_defs example_defs)
  from nested_walk_short_circuits
         [where inh = no_inherited and p = "''p''" and n = "''a''" and pre = "[''b'']"
            and ld = ?ld and app = example_apply and tr = "[]" and obj = "Obj [(''e'', Str [])]"
            and seg = "''c''" and v = Undefined and pre' = "[''b'', ''c'']" and tr' = "[]"
            and e = "Error ''Property not found: p, a.c''" and rest = "[''d'', ''e'']"]
       h1 h2 h3
  show ?thesis by (simp add: PROPERTY_NOT_FOUND_ERROR_def)
qed

text \<open>
  C9. A property that is present on the object and bound to a falsy value is treated as
  absent: getObjectProperty fails with \<open>Property not found\<close> for it, and so does
  getNestedObjectProperty when the walk reaches it, whatever segments follow.
\<close>

theorem falsy_property_treated_as_absent:
  "(exec (getObject p n) ld app = (tr, Inr (Obj ps)) \<and>
    map_of ps seg = Some v \<and> \<not> truthy v \<longrightarrow>
      exec (getObjectProperty inh p n seg) ld app =
        (tr, Inl (Error (PROPERTY_NOT_FOUND_ERROR @ '': '' @ p @ '', '' @ n @ ''.'' @ seg)))) \<and>
   (exec (getNestedObjectProperty inh p n pre) ld app = (tr', Inr (Obj ps')) \<and>
    map_of ps' seg' = Some v' \<and> \<not> truthy v' \<longrightarrow>
      exec (getNestedObjectProperty inh p n (pre @ seg' # rest)) ld app =
        (tr', Inl (Error (PROPERTY_NOT_FOUND_ERROR @ '': '' @ p @ '', '' @ n @ ''.'' @ seg'))))"
  by (simp add: exec_getObjectProperty exec_getNested_next)

theorem falsy_property_treated_as_absent_witness:
  "exec (getObject ''p'' ''a'') (Inr (Some example_module)) example_apply
     = ([], Inr (Obj [(''b'', Obj [(''e'', Str [])]), (''n'', Num 0)])) \<and>
   map_of [(''b'', Obj [(''e'', Str [])]), (''n'', Num 0)] ''n'' = Some (Num 0) \<and>
   \<not> truthy (Num 0) \<and>
   exec (getObjectProperty no_inherited ''p'' ''a'' ''n'') (Inr (Some example_module)) example_apply
     = ([], Inl (Error ''Property not found: p, a.n'')) \<and>
   exec (getNestedObjectProperty no_inherited ''p'' ''a'' [''b''])
        (Inr (Some example_module)) example_apply = ([], Inr (Obj [(''e'', Str [])])) \<and>
   map_of [(''e'', Str [])] ''e'' = Some (Str []) \<and>
   \<not> truthy (Str []) \<and>
   exec (getNestedObjectProperty no_inherited ''p'' ''a'' ([''b''] @ ''e'' # [''length'']))
        (Inr (Some example_module)) example_apply
     = ([], Inl (Error ''Property not found: p, a.e''))"
proof -
  let ?ld = "Inr (Some example_module) :: error + module option"
  have h1: "exec (getObject ''p'' ''a'') ?ld example_apply
              = ([], Inr (Obj [(''b'', Obj [(''e'', Str [])]), (''n'', Num 0)]))"
    by (simp add: method_defs example_defs)
  have h2: "map_of [(''b'', Obj [(''e'', Str [])]), (''n'', Num 0)] ''n'' = Some (Num 0)"
    by simp
  have h3: "exec (getNestedObjectProperty no_inherited ''p'' ''a'' [''b'']) ?ld example_apply
              = ([], Inr (Obj [(''e'', Str [])]))"
    by (simp add: method_defs example_defs)
  have h4: "map_of [(''e'', Str [])] ''e'' = Some (Str [])"
    by simp
  from falsy_property_treated_as_absent
         [where inh = no_inherited and p = "''p''" and n = "''a''" and ld = ?ld
            and app = example_apply and tr = "[]"
            and ps = "[(''b'', Obj [(''e'', Str [])]), (''n'', Num 0)]"
            and seg = "''n''" and v = "Num 0" and pre = "[''b'']" and tr' = "[]"
            and ps' = "[(''e'', Str [])]" and seg' = "''e''" and v' = "Str []"
            and rest = "[''length'']"]
       h1 h2 h3 h4
  show ?thesis by (simp add: PROPERTY_NOT_FOUND_ERROR_def)
qed

text \<open>
  C10. With no segments, getNestedObjectProperty is getObject: the same steps, hence the
  same value or the same error (for an empty name, for an absent member, for a failed
  load) in every run, with or without a loader.
\<close>

theorem nested_walk_without_segments:
  "getNestedObjectProperty inh p n [] = getObject p n \<and>
   exec (getNestedObjectProperty inh p n []) ld app = exec (getObject p n) ld app \<and>
   perform (getNestedObjectProperty inh p n []) entry app s = perform (getObject p n) entry app s"
  by (simp add: getNestedObjectProperty_def await_then_Return)

section \<open>Invoking members\<close>

lemma exec_getFunction:
  "n \<noteq> [] \<Longrightarrow> module_get m n = Fun i k src \<Longrightarrow>
   exec (getFunction p n) (Inr (Some m)) app = ([], Inr (Fun i k src))"
  by (simp add: getFunction_def exec_await_then exec_getObject isFunction_def)

lemma exec_getClass:
  "n \<noteq> [] \<Longrightarrow> module_get m n = Fun i k src \<Longrightarrow> class_regex_test src \<Longrightarrow>
   exec (getClass p n) (Inr (Some m)) app = ([], Inr (Fun i k src))"
  by (simp add: getClass_def exec_await_then exec_getObject isClass_def)

lemma length_mismatch_Fun:
  "length_mismatch inh (Fun i k src) args = Inr (k \<noteq> length args)"
  by (simp add: length_mismatch_def)

text \<open>callFunction hands the arguments to the function as they are.\<close>

lemma callFunction_invocation:
  "n \<noteq> [] \<Longrightarrow> module_get m n = Fun i k src \<Longrightarrow>
   exec (callFunction p n args) (Inr (Some m)) app =
     ([(PlainCall, Fun i k src, args)], app PlainCall (Fun i k src) args)"
  by (simp add: callFunction_def exec_await_then exec_getFunction split: sum.splits)

text \<open>callNew hands the constructor one argument, the array of the arguments.\<close>

lemma callNew_invocation:
  "n \<noteq> [] \<Longrightarrow> module_get m n = Fun i k src \<Longrightarrow> class_regex_test src \<Longrightarrow>
   exec (callNew p n args) (Inr (Some m)) app =
     ([(Construct, Fun i k src, [Arr args])], app Construct (Fun i k src) [Arr args])"
  by (simp add: callNew_def exec_await_then exec_getClass split: sum.splits)

text \<open>
  C3. The claim says that callNew passes the arguments through unmodified, so that
  \<open>callNew("Vector", 7)\<close> on \<open>Vector = class {constructor(x){this.x = x}}\<close> yields an
  instance whose \<open>x\<close> is 7. The code evaluates \<open>new Class(parameters)\<close> without
  spreading the rest parameter (callFunction does spread it): the constructor gets the
  one argument \<open>[7]\<close>, and \<open>x\<close> is that array.
\<close>

theorem callNew_wraps_arguments:
  "exec (callNew ''mathutils'' ''Vector'' [Num 7]) (Inr (Some example_module)) example_apply =
     ([(Construct, Vector, [Arr [Num 7]])], Inr (Obj [(''x'', Arr [Num 7])])) \<and>
   Obj [(''x'', Arr [Num 7])] \<noteq> Obj [(''x'', Num 7)]"
  by (simp add: method_defs example_defs)

subsection \<open>The safe forms check the number of arguments first\<close>

lemma safeCallFunction_mismatch:
  "n \<noteq> [] \<Longrightarrow> module_get m n = Fun i k src \<Longrightarrow> k \<noteq> length args \<Longrightarrow>
   exec (safeCallFunction inh p n args) (Inr (Some m)) app =
     ([], Inl (Error (MISMATCHED_NUMBER_OF_PARAMETERS_ERROR @ '': '' @ p @ '', '' @ n)))"
  by (simp add: safeCallFunction_def exec_await_then exec_getFunction length_mismatch_Fun)

lemma safeCallFunction_match:
  "n \<noteq> [] \<Longrightarrow> module_get m n = Fun i k src \<Longrightarrow> k = length args \<Longrightarrow>
   exec (safeCallFunction inh p n args) (Inr (Some m)) app =
     ([(PlainCall, Fun i k src, args)], app PlainCall (Fun i k src) args)"
  by (simp add: safeCallFunction_def exec_await_then exec_getFunction length_mismatch_Fun
           split: sum.splits)

lemma safeCallNew_mismatch:
  "n \<noteq> [] \<Longrightarrow> module_get m n = Fun i k src \<Longrightarrow> class_regex_test src \<Longrightarrow>
   k \<noteq> length args \<Longrightarrow>
   exec (safeCallNew inh p n args) (Inr (Some m)) app =
     ([], Inl (Error (MISMATCHED_NUMBER_OF_PARAMETERS_ERROR @ '': '' @ p @ '', '' @ n)))"
  by (simp add: safeCallNew_def exec_await_then exec_getClass length_mismatch_Fun)

lemma safeCallNew_match:
  "n \<noteq> [] \<Longrightarrow> module_get m n = Fun i k src \<Longrightarrow> class_regex_test src \<Longrightarrow>
   k = length args \<Longrightarrow>
   exec (safeCallNew inh p n args) (Inr (Some m)) app =
     ([(Construct, Fun i k src, [Arr args])], app Construct (Fun i k src) [Arr args])"
  by (simp add: safeCallNew_def exec_await_then exec_getClass length_mismatch_Fun
           split: sum.splits)

lemma safeCallObjectMethod_mismatch:
  "exec (getObject p n) ld app = (tr, Inr obj) \<Longrightarrow>
   get_prop inh obj meth = Inr (Fun i k src) \<Longrightarrow> k \<noteq> length args \<Longrightarrow>
   exec (safeCallObjectMethod inh p n meth args) ld app =
     (tr, Inl (Error (MISMATCHED_NUMBER_OF_PARAMETERS_ERROR @ '': '' @ p @ '', '' @ n
                        @ ''.'' @ meth)))"
  by (simp add: safeCallObjectMethod_def exec_await_then exec_getObjectProperty isFunction_def
                length_mismatch_Fun)

lemma safeCallObjectMethod_match:
  "exec (getObject p n) ld app = (tr, Inr obj) \<Longrightarrow>
   get_prop inh obj meth = Inr (Fun i k src) \<Longrightarrow> k = length args \<Longrightarrow>
   exec (safeCallObjectMethod inh p n meth args) ld app =
     (tr @ [(PlainCall, Fun i k src, args)], app PlainCall (Fun i k src) args)"
  by (simp add: safeCallObjectMethod_def exec_await_then exec_getObjectProperty isFunction_def
                length_mismatch_Fun split: sum.splits)

text \<open>
  C5. The claim says that the safe forms, safeCallNew among them, fail before the target
  is invoked when the number of arguments differs from the declared one, and invoke the
  target with the arguments when it does not. The first half holds for the three forms
  (the lemmas above: no invocation is made), and the second for safeCallFunction and
  safeCallObjectMethod. safeCallNew, after its check has passed, evaluates
  \<open>new Class(parameters)\<close> as callNew does: for the class Vector, which declares one
  parameter, and the one argument 7, the constructor is invoked with the argument list
  \<open>[[7]]\<close>, not \<open>[7]\<close>.
\<close>

theorem safeCallNew_wraps_arguments:
  "exec (safeCallNew no_inherited ''mathutils'' ''Vector'' [Num 7])
        (Inr (Some example_module)) example_apply =
     ([(Construct, Vector, [Arr [Num 7]])], Inr (Obj [(''x'', Arr [Num 7])])) \<and>
   [Arr [Num 7]] \<noteq> [Num 7]"
  by (simp add: method_defs example_defs)

section \<open>The loader\<close>

lemma run_Nil [simp]: "run entry [] s = s"
  by (simp add: run_def)

lemma run_Cons [simp]: "run entry (ev # evs) s = run entry evs (step entry ev s)"
  by (simp add: run_def)

lemma run_append: "run entry (evs1 @ evs2) s = run entry evs2 (run entry evs1 s)"
  by (simp add: run_def)

lemma emit_load_fields [simp]:
  "loadedScript (emit_load s) = loadedScript s"
  "loadingScript (emit_load s) = loadingScript s"
  "pending (emit_load s) = pending s"
  "importCount (emit_load s) = importCount s"
  "listeners (emit_load s) = listeners s"
  by (simp_all add: emit_load_def)

lemma resume_fields [simp]:
  "loadedScript (resume c s) = loadedScript s"
  "loadingScript (resume c s) = loadingScript s"
  "pending (resume c s) = pending s"
  "importCount (resume c s) = importCount s"
  "listeners (resume c s) = listeners s"
  by (simp_all add: resume_def split: status.splits option.splits)

subsection \<open>At most one import is pending in src/load\<close>

lemma single_flight_fresh: "single_flight fresh"
  by (simp add: single_flight_def fresh_def)

lemma pending_single: "length xs \<le> 1 \<Longrightarrow> i \<in> set xs \<Longrightarrow> removeAll i xs = []"
  by (cases xs) auto

lemma single_flight_call: "single_flight s \<Longrightarrow> single_flight (call_loadedScript s)"
  by (auto simp: single_flight_def call_loadedScript_def split: option.splits)

lemma single_flight_fulfilled: "single_flight s \<Longrightarrow> single_flight (import_fulfilled i m s)"
  by (auto simp: single_flight_def import_fulfilled_def Let_def pending_single)

lemma single_flight_rejected: "single_flight s \<Longrightarrow> single_flight (import_rejected i e s)"
  by (auto simp: single_flight_def import_rejected_def pending_single)

lemma single_flight_resume: "single_flight s \<Longrightarrow> single_flight (resume c s)"
  by (simp add: single_flight_def)

lemma single_flight_step: "single_flight s \<Longrightarrow> single_flight (step call_loadedScript ev s)"
  by (cases ev)
     (simp_all add: single_flight_call single_flight_fulfilled single_flight_rejected
                    single_flight_resume)

lemma single_flight_run: "single_flight s \<Longrightarrow> single_flight (run call_loadedScript evs s)"
  by (induction evs arbitrary: s) (simp_all add: single_flight_step)

lemma single_flight_reachable: "single_flight (run call_loadedScript evs fresh)"
  by (simp add: single_flight_run single_flight_fresh)

subsection \<open>One import unless an import fails\<close>

lemma started_once_step:
  "started_once s \<Longrightarrow> \<not> is_Reject ev \<Longrightarrow> started_once (step call_loadedScript ev s)"
  by (cases ev) (auto simp: started_once_def call_loadedScript_def import_fulfilled_def Let_def split: option.splits)

lemma started_once_run:
  "started_once s \<Longrightarrow> \<forall>ev \<in> set evs. \<not> is_Reject ev \<Longrightarrow> started_once (run call_loadedScript evs s)"
  by (induction evs arbitrary: s) (simp_all add: started_once_step)

subsection \<open>Every caller returns the loaded script\<close>

lemma set_wake: "set (wake c cs) \<subseteq> insert (Resumable None) (set cs)"
  using set_update_subset_insert [of cs c "Resumable None"] by (auto simp: wake_def)

lemma set_fold_wake: "set (fold wake ls cs) \<subseteq> insert (Resumable None) (set cs)"
proof (induction ls arbitrary: cs)
  case Nil
  then show ?case by auto
next
  case (Cons c ls)
  have "set (fold wake ls (wake c cs)) \<subseteq> insert (Resumable None) (set (wake c cs))"
    by (rule Cons.IH)
  with set_wake [of c cs] show ?case by auto
qed

lemma set_settle_chain: "set (settle_chain i r cs) \<subseteq> insert (Resumable r) (set cs)"
  by (auto simp: settle_chain_def)

lemma returns_loaded_fresh: "returns_loaded fresh"
  by (simp add: returns_loaded_def fresh_def)

lemma returns_loaded_call: "returns_loaded s \<Longrightarrow> returns_loaded (call_loadedScript s)"
  by (auto simp: returns_loaded_def call_loadedScript_def split: option.splits)

lemma returns_loaded_rejected: "returns_loaded s \<Longrightarrow> returns_loaded (import_rejected i e s)"
  using set_settle_chain [of i "Some e" "calls s"]
  by (auto simp: returns_loaded_def import_rejected_def)

lemma returns_loaded_resume: "returns_loaded s \<Longrightarrow> returns_loaded (resume c s)"
proof -
  assume a: "returns_loaded s"
  show ?thesis
  proof (cases "c < length (calls s)")
    case False
    with a show ?thesis by (simp add: resume_def)
  next
    case True
    then have mem: "calls s ! c \<in> set (calls s)" by simp
    show ?thesis
    proof (cases "calls s ! c")
      case (Resumable r)
      show ?thesis
      proof (cases r)
        case None
        with Resumable mem a have l: "loadedScript s \<noteq> None"
          by (auto simp: returns_loaded_def)
        from None Resumable True
        have eq: "resume c s = s\<lparr>calls := (calls s)[c := Returned (loadedScript s)]\<rparr>"
          by (simp add: resume_def)
        from a l set_update_subset_insert [of "calls s" c "Returned (loadedScript s)"]
        show ?thesis unfolding eq returns_loaded_def by auto
      next
        case (Some e)
        with Resumable True
        have eq: "resume c s = s\<lparr>calls := (calls s)[c := Threw e]\<rparr>"
          by (simp add: resume_def)
        from a set_update_subset_insert [of "calls s" c "Threw e"]
        show ?thesis unfolding eq returns_loaded_def by auto
      qed
    qed (use a True in \<open>simp_all add: resume_def\<close>)
  qed
qed

lemma returns_loaded_fulfilled:
  assumes a: "returns_loaded s" and sf: "single_flight s"
  shows "returns_loaded (import_fulfilled i m s)"
proof (cases "i \<in> set (pending s)")
  case False
  with a show ?thesis by (simp add: import_fulfilled_def)
next
  case True
  with sf have none: "loadedScript s = None" by (auto simp: single_flight_def)
  with a have old: "\<forall>st \<in> set (calls s). (\<forall>r. st \<noteq> Returned r) \<and> st \<noteq> Resumable None"
    by (auto simp: returns_loaded_def)
  let ?cs = "settle_chain i None (fold wake (listeners s) (calls s))"
  have sub: "set ?cs \<subseteq> insert (Resumable None) (set (calls s))"
    using set_settle_chain [of i None "fold wake (listeners s) (calls s)"]
          set_fold_wake [of "listeners s" "calls s"] by auto
  have calls: "calls (import_fulfilled i m s) = ?cs"
    and loaded: "loadedScript (import_fulfilled i m s) = Some m"
    using True by (simp_all add: import_fulfilled_def Let_def emit_load_def)
  show ?thesis
    unfolding returns_loaded_def calls loaded using sub old by auto
qed

lemma returns_loaded_step:
  "returns_loaded s \<Longrightarrow> single_flight s \<Longrightarrow> returns_loaded (step call_loadedScript ev s)"
  by (cases ev) (simp_all add: returns_loaded_call returns_loaded_fulfilled returns_loaded_rejected returns_loaded_resume)

lemma returns_loaded_run:
  "returns_loaded s \<Longrightarrow> single_flight s \<Longrightarrow> returns_loaded (run call_loadedScript evs s)"
  by (induction evs arbitrary: s) (simp_all add: returns_loaded_step single_flight_step)

text \<open>
  Single flight in src/load, for every order of events: at most one import is pending;
  unless an import has failed, at most one has been started; and whatever an activation
  has returned is the script in \<open>#loadedScript\<close>, so all of them return the same.
\<close>

lemma src_load_single_flight:
  "length (pending (run call_loadedScript evs fresh)) \<le> 1 \<and>
   ((\<forall>ev \<in> set evs. \<not> is_Reject ev) \<longrightarrow> importCount (run call_loadedScript evs fresh) \<le> 1) \<and>
   (\<forall>c < length (calls (run call_loadedScript evs fresh)). \<forall>r.
      calls (run call_loadedScript evs fresh) ! c = Returned r \<longrightarrow>
        r \<noteq> None \<and> r = loadedScript (run call_loadedScript evs fresh))"
proof -
  let ?s = "run call_loadedScript evs fresh"
  have "single_flight ?s" by (rule single_flight_reachable)
  then have A: "length (pending ?s) \<le> 1" by (simp add: single_flight_def)
  have "started_once fresh" by (simp add: started_once_def fresh_def)
  then have B: "(\<forall>ev \<in> set evs. \<not> is_Reject ev) \<longrightarrow> importCount ?s \<le> 1"
    using started_once_run [of fresh evs] by (auto simp: started_once_def)
  have "returns_loaded ?s"
    by (simp add: returns_loaded_run returns_loaded_fresh single_flight_fresh)
  then have C: "\<forall>c < length (calls ?s). \<forall>r. calls ?s ! c = Returned r \<longrightarrow> r \<noteq> None \<and> r = loadedScript ?s"
    unfolding returns_loaded_def by (metis nth_mem)
  from A B C show ?thesis by blast
qed

subsection \<open>The run of N concurrent callers\<close>

lemma calls_on_fresh:
  "run call_loadedScript (replicate (Suc k) Call) fresh =
     \<lparr>loadedScript = None, loadingScript = Some 0, listeners = [1..<Suc k], pending = [0],
      importCount = 1, calls = AwaitingLoad 0 # replicate k AwaitingEvent\<rparr>"
proof (induction k)
  case 0
  show ?case by (simp add: call_loadedScript_def fresh_def)
next
  case (Suc k)
  have "replicate (Suc (Suc k)) Call = replicate (Suc k) Call @ [Call]"
    by (simp add: replicate_append_same)
  then have "run call_loadedScript (replicate (Suc (Suc k)) Call) fresh =
      call_loadedScript (run call_loadedScript (replicate (Suc k) Call) fresh)"
    by (simp only: run_append) simp
  also have "\<dots> = \<lparr>loadedScript = None, loadingScript = Some 0, listeners = [1..<Suc (Suc k)],
      pending = [0], importCount = 1, calls = AwaitingLoad 0 # replicate (Suc k) AwaitingEvent\<rparr>"
    unfolding Suc.IH by (simp add: call_loadedScript_def replicate_append_same)
  finally show ?case .
qed

lemma update_at_length: "length xs = a \<Longrightarrow> (xs @ x # ys)[a := y] = xs @ y # ys"
  by auto

lemma fold_wake_block:
  "length pre = a \<Longrightarrow>
   fold wake [a..<a + j] (pre @ replicate j AwaitingEvent @ post) =
     pre @ replicate j (Resumable None) @ post"
proof (induction j arbitrary: pre a)
  case 0
  then show ?case by simp
next
  case (Suc j)
  have upt: "[a..<a + Suc j] = a # [Suc a..<Suc a + j]"
    by (simp add: upt_conv_Cons)
  have w: "wake a (pre @ replicate (Suc j) AwaitingEvent @ post) =
      (pre @ [Resumable None]) @ replicate j AwaitingEvent @ post"
    using Suc.prems by (simp add: wake_def nth_append update_at_length)
  have "length (pre @ [Resumable None]) = Suc a" using Suc.prems by simp
  from Suc.IH [OF this] show ?case
    unfolding upt by (simp add: w [simplified] replicate_app_Cons_same)
qed

lemma resume_block:
  "calls s = replicate a (Returned (loadedScript s)) @ replicate j (Resumable None) \<Longrightarrow>
   run entry (map Resume [a..<a + j]) s =
     s\<lparr>calls := replicate (a + j) (Returned (loadedScript s))\<rparr>"
proof (induction j arbitrary: s a)
  case 0
  then show ?case by simp
next
  case (Suc j)
  have upt: "[a..<a + Suc j] = a # [Suc a..<Suc a + j]"
    by (simp add: upt_conv_Cons)
  let ?s = "resume a s"
  have r: "?s = s\<lparr>calls := replicate (Suc a) (Returned (loadedScript s)) @ replicate j (Resumable None)\<rparr>"
    using Suc.prems by (simp add: resume_def nth_append update_at_length replicate_append_same)
  then have "calls ?s = replicate (Suc a) (Returned (loadedScript ?s)) @ replicate j (Resumable None)"
    by simp
  from Suc.IH [OF this] show ?case
    unfolding upt by (simp add: r)
qed

text \<open>
  \<open>k + 1\<close> callers before the import settles, the import fulfilling with \<open>m\<close>, and
  the continuations run: one import was started, and every caller has returned \<open>m\<close>.
\<close>

lemma n_callers:
  "run call_loadedScript (replicate (Suc k) Call @ [Fulfil 0 m] @ map Resume [0..<Suc k]) fresh =
     \<lparr>loadedScript = Some m, loadingScript = Some 0, listeners = [1..<Suc k], pending = [],
      importCount = 1, calls = replicate (Suc k) (Returned (Some m))\<rparr>"
proof -
  let ?s1 = "run call_loadedScript (replicate (Suc k) Call) fresh"
  let ?s2 = "import_fulfilled 0 m ?s1"
  have w: "fold wake [Suc 0..<Suc k] (AwaitingLoad 0 # replicate k AwaitingEvent) =
      AwaitingLoad 0 # replicate k (Resumable None)"
    using fold_wake_block [of "[AwaitingLoad 0]" "Suc 0" k "[]"] by (simp del: upt_Suc)
  have s2: "?s2 = \<lparr>loadedScript = Some m, loadingScript = Some 0, listeners = [1..<Suc k],
      pending = [], importCount = 1, calls = replicate (Suc k) (Resumable None)\<rparr>"
    unfolding calls_on_fresh
    by (simp add: import_fulfilled_def emit_load_def Let_def w settle_chain_def del: upt_Suc)
  have c2: "calls ?s2 = replicate 0 (Returned (loadedScript ?s2)) @ replicate (Suc k) (Resumable None)"
    unfolding s2 by simp
  have split: "run call_loadedScript (replicate (Suc k) Call @ [Fulfil 0 m] @ map Resume [0..<Suc k]) fresh
      = run call_loadedScript (map Resume [0..<0 + Suc k]) ?s2"
    by (simp only: run_append run_Cons run_Nil step.simps add_0)
  have "run call_loadedScript (map Resume [0..<0 + Suc k]) ?s2 =
      ?s2\<lparr>calls := replicate (0 + Suc k) (Returned (loadedScript ?s2))\<rparr>"
    using c2 by (rule resume_block)
  also have "\<dots> = \<lparr>loadedScript = Some m, loadingScript = Some 0, listeners = [1..<Suc k],
      pending = [], importCount = 1, calls = replicate (Suc k) (Returned (Some m))\<rparr>"
    unfolding s2 by simp
  finally show ?thesis unfolding split .
qed

subsection \<open>A waiter is released by a successful load only\<close>

lemma waiter_step:
  assumes "c < length (calls s)" "calls s ! c = AwaitingEvent" "\<not> is_Fulfil ev"
  shows "c < length (calls (step call_loadedScript ev s)) \<and>
         calls (step call_loadedScript ev s) ! c = AwaitingEvent"
proof (cases ev)
  case Call
  with assms show ?thesis
    by (auto simp: call_loadedScript_def nth_append split: option.splits)
next
  case (Fulfil i m)
  with assms show ?thesis by simp
next
  case (Reject i e)
  with assms show ?thesis
    by (auto simp: import_rejected_def settle_chain_def)
next
  case (Resume c')
  with assms show ?thesis
    by (cases "c' = c") (auto simp: resume_def split: status.splits option.splits)
qed

lemma waiter_stays_suspended:
  "c < length (calls s) \<Longrightarrow> calls s ! c = AwaitingEvent \<Longrightarrow>
   \<forall>ev \<in> set evs. \<not> is_Fulfil ev \<Longrightarrow>
   c < length (calls (run call_loadedScript evs s)) \<and>
   calls (run call_loadedScript evs s) ! c = AwaitingEvent"
proof (induction evs arbitrary: s)
  case Nil
  then show ?case by simp
next
  case (Cons ev evs)
  from Cons.prems have "c < length (calls (step call_loadedScript ev s)) \<and>
      calls (step call_loadedScript ev s) ! c = AwaitingEvent"
    by (intro waiter_step) simp_all
  with Cons.IH [of "step call_loadedScript ev s"] Cons.prems show ?case by simp
qed

text \<open>
  C1. The claim says that N concurrent callers of loadedScript() on a fresh Script cause
  one import, and that at most one import is pending at any time. The loader of src/load
  keeps to it (\<open>src_load_single_flight\<close>, \<open>n_callers\<close>). In src/lib/path/script.js the branch for a
  load in progress defines \<open>waitForEvent\<close> and never calls it, so the second caller
  starts a second import while the first is pending.
\<close>

theorem lib_path_loads_twice:
  "importCount (run lib_call_loadedScript [Call, Call] fresh) = 2 \<and>
   pending (run lib_call_loadedScript [Call, Call] fresh) = [0, 1] \<and>
   calls (run lib_call_loadedScript [Call, Call] fresh) = [AwaitingLoad 0, AwaitingLoad 1]"
  by (simp add: loader_defs)

text \<open>
  C2. The claim says that when the load in flight fails, every caller suspended on it is
  woken once and receives the failure that the initiating caller receives. The
  \<open>catch\<close> handler clears \<open>#loadingScript\<close> and throws again, and emits nothing: with
  two callers and a failing import, the first caller throws and the second stays
  suspended on its listener (and stays so until an import fulfils,
  \<open>waiter_stays_suspended\<close>). When a later call loads the
  script with success, the \<open>load\<close> event wakes that second caller, which then returns
  the script, where the caller it had waited for has thrown.
\<close>

theorem waiter_not_woken_on_failure:
  "calls (run call_loadedScript
            [Call, Call, Reject 0 (Foreign ''boom''), Resume 0, Resume 1] fresh)
     = [Threw (Foreign ''boom''), AwaitingEvent] \<and>
   calls (run call_loadedScript
            [Call, Call, Reject 0 (Foreign ''boom''), Resume 0, Resume 1,
             Call, Fulfil 1 example_module, Resume 1, Resume 2] fresh)
     = [Threw (Foreign ''boom''), Returned (Some example_module),
        Returned (Some example_module)]"
  by (simp add: loader_defs Let_def)

subsection \<open>Retry after a failure, no reload after a success\<close>

lemma loaded_no_pending: "single_flight s \<Longrightarrow> loadedScript s = Some m \<Longrightarrow> pending s = []"
  by (auto simp: single_flight_def)

lemma loaded_step:
  assumes "single_flight s" "loadedScript s = Some m"
  shows "loadedScript (step call_loadedScript ev s) = Some m \<and>
         importCount (step call_loadedScript ev s) = importCount s"
proof (cases ev)
  case Call
  with assms show ?thesis by (simp add: call_loadedScript_def)
next
  case (Fulfil i script)
  with assms loaded_no_pending [OF assms] show ?thesis by (simp add: import_fulfilled_def)
next
  case (Reject i e)
  with assms loaded_no_pending [OF assms] show ?thesis by (simp add: import_rejected_def)
next
  case (Resume c)
  with assms show ?thesis by simp
qed

lemma loaded_run:
  "single_flight s \<Longrightarrow> loadedScript s = Some m \<Longrightarrow>
   loadedScript (run call_loadedScript evs s) = Some m \<and>
   importCount (run call_loadedScript evs s) = importCount s"
proof (induction evs arbitrary: s)
  case Nil
  then show ?case by simp
next
  case (Cons ev evs)
  from Cons.prems have a: "single_flight (step call_loadedScript ev s)"
    by (simp add: single_flight_step)
  from Cons.prems have b: "loadedScript (step call_loadedScript ev s) = Some m"
    and c: "importCount (step call_loadedScript ev s) = importCount s"
    using loaded_step by blast+
  from Cons.IH [OF a b] c show ?case by simp
qed

lemma calls_while_loading:
  "loadedScript s = None \<Longrightarrow> loadingScript s \<noteq> None \<Longrightarrow>
   importCount (run call_loadedScript (replicate k Call) s) = importCount s \<and>
   pending (run call_loadedScript (replicate k Call) s) = pending s \<and>
   loadedScript (run call_loadedScript (replicate k Call) s) = None \<and>
   loadingScript (run call_loadedScript (replicate k Call) s) = loadingScript s"
proof (induction k arbitrary: s)
  case 0
  then show ?case by simp
next
  case (Suc k)
  let ?s = "call_loadedScript s"
  from Suc.prems have "loadedScript ?s = None" "loadingScript ?s \<noteq> None"
    "importCount ?s = importCount s" "pending ?s = pending s"
    "loadingScript ?s = loadingScript s"
    by (auto simp: call_loadedScript_def)
  with Suc.IH [of ?s] show ?case by simp
qed

lemma rejected_clears:
  assumes "single_flight s" and "i \<in> set (pending s)"
  shows "loadingScript (import_rejected i e s) = None"
    and "loadedScript (import_rejected i e s) = None"
    and "pending (import_rejected i e s) = []"
    and "importCount (import_rejected i e s) = importCount s"
  using assms by (auto simp: import_rejected_def single_flight_def pending_single)

lemma first_call_starts_import:
  "loadedScript s = None \<Longrightarrow> loadingScript s = None \<Longrightarrow>
   importCount (call_loadedScript s) = Suc (importCount s) \<and>
   pending (call_loadedScript s) = pending s @ [importCount s] \<and>
   loadedScript (call_loadedScript s) = None \<and>
   loadingScript (call_loadedScript s) = Some (importCount s) \<and>
   calls (call_loadedScript s) = calls s @ [AwaitingLoad (importCount s)]"
  by (simp add: call_loadedScript_def)

text \<open>
  C6. In every state that a fresh Script of src/load can reach: when the pending import
  fails, \<open>#loadingScript\<close> is cleared, and the calls that follow (one, or one and
  \<open>k\<close> more before anything settles) start one new import, no more. Once
  \<open>#loadedScript\<close> is set, whatever happens afterwards starts no import and leaves the
  script in place.
\<close>

theorem failed_load_can_be_retried:
  "(i \<in> set (pending (run call_loadedScript evs fresh)) \<longrightarrow>
      loadingScript (step call_loadedScript (Reject i e) (run call_loadedScript evs fresh))
        = None \<and>
      importCount (run call_loadedScript (Call # replicate k Call)
                     (step call_loadedScript (Reject i e) (run call_loadedScript evs fresh)))
        = Suc (importCount (run call_loadedScript evs fresh)) \<and>
      pending (run call_loadedScript (Call # replicate k Call)
                     (step call_loadedScript (Reject i e) (run call_loadedScript evs fresh)))
        = [importCount (run call_loadedScript evs fresh)]) \<and>
   (loadedScript (run call_loadedScript evsL fresh) = Some m \<longrightarrow>
      loadedScript (run call_loadedScript evsN (run call_loadedScript evsL fresh)) = Some m \<and>
      importCount (run call_loadedScript evsN (run call_loadedScript evsL fresh))
        = importCount (run call_loadedScript evsL fresh))"
proof -
  let ?s = "run call_loadedScript evs fresh"
  let ?t = "run call_loadedScript evsL fresh"
  have sf: "single_flight ?s" and sf0: "single_flight ?t"
    by (rule single_flight_reachable)+
  have A: "loadingScript (step call_loadedScript (Reject i e) ?s) = None \<and>
      importCount (run call_loadedScript (Call # replicate k Call)
                     (step call_loadedScript (Reject i e) ?s)) = Suc (importCount ?s) \<and>
      pending (run call_loadedScript (Call # replicate k Call)
                     (step call_loadedScript (Reject i e) ?s)) = [importCount ?s]"
    if i: "i \<in> set (pending ?s)"
  proof -
    let ?r = "import_rejected i e ?s"
    note r = rejected_clears [OF sf i, of e]
    let ?c = "call_loadedScript ?r"
    from first_call_starts_import [of ?r] r
    have c: "importCount ?c = Suc (importCount ?s)" "pending ?c = [importCount ?s]"
      "loadedScript ?c = None" "loadingScript ?c \<noteq> None"
      by simp_all
    from calls_while_loading [of ?c k] c r show ?thesis by simp
  qed
  have B: "loadedScript (run call_loadedScript evsN ?t) = Some m \<and>
      importCount (run call_loadedScript evsN ?t) = importCount ?t"
    if "loadedScript ?t = Some m"
    using loaded_run [OF sf0 that] .
  from A B show ?thesis by blast
qed

theorem failed_load_can_be_retried_witness:
  "0 \<in> set (pending (run call_loadedScript [Call, Call] fresh)) \<and>
   loadingScript (step call_loadedScript (Reject 0 (Foreign ''boom''))
                    (run call_loadedScript [Call, Call] fresh)) = None \<and>
   importCount (run call_loadedScript (Call # replicate 2 Call)
                  (step call_loadedScript (Reject 0 (Foreign ''boom''))
                     (run call_loadedScript [Call, Call] fresh))) = 2 \<and>
   loadedScript (run call_loadedScript [Call, Fulfil 0 example_module] fresh)
     = Some example_module \<and>
   loadedScript (run call_loadedScript [Call, Fulfil 0 [], Resume 0]
                   (run call_loadedScript [Call, Fulfil 0 example_module] fresh))
     = Some example_module \<and>
   importCount (run call_loadedScript [Call, Fulfil 0 [], Resume 0]
                   (run call_loadedScript [Call, Fulfil 0 example_module] fresh)) = 1"
proof -
  have h1: "0 \<in> set (pending (run call_loadedScript [Call, Call] fresh))"
    by (simp add: loader_defs)
  have h2: "loadedScript (run call_loadedScript [Call, Fulfil 0 example_module] fresh)
              = Some example_module"
    by (simp add: loader_defs Let_def)
  have c1: "importCount (run call_loadedScript [Call, Call] fresh) = 1"
    by (simp add: loader_defs)
  have c2: "importCount (run call_loadedScript [Call, Fulfil 0 example_module] fresh) = 1"
    by (simp add: loader_defs Let_def)
  from failed_load_can_be_retried
         [where i = 0 and evs = "[Call, Call]" and e = "Foreign ''boom''" and k = 2
            and evsL = "[Call, Fulfil 0 example_module]" and m = example_module
            and evsN = "[Call, Fulfil 0 [], Resume 0]"]
       h1 h2 c1 c2
  show ?thesis by simp
qed

subsection \<open>getObject on a loaded Script\<close>

lemma perform_getObject_loaded:
  "loadedScript s = Some m \<Longrightarrow>
   perform (getObject p n) call_loadedScript app s =
     ((if n = [] then s else call_loadedScript s),
      Finished (snd (exec (getObject p n) (Inr (Some m)) app)))"
  by (simp add: getObject_def call_loadedScript_def optional_get_def script_get_def)

lemma call_loadedScript_loaded:
  "loadedScript s = Some m \<Longrightarrow>
   loadedScript (call_loadedScript s) = Some m \<and>
   importCount (call_loadedScript s) = importCount s"
  by (simp add: call_loadedScript_def)

lemma perform_getObject_loaded_state:
  assumes "single_flight s" "loadedScript s = Some m"
  shows "snd (perform (getObject p n) call_loadedScript app s)
           = Finished (snd (exec (getObject p n) (Inr (Some m)) app))"
    and "single_flight (fst (perform (getObject p n) call_loadedScript app s))"
    and "loadedScript (fst (perform (getObject p n) call_loadedScript app s)) = Some m"
    and "importCount (fst (perform (getObject p n) call_loadedScript app s)) = importCount s"
  using assms call_loadedScript_loaded [of s m]
  by (cases "n = []"; simp add: perform_getObject_loaded single_flight_call)+

text \<open>
  getObject on a fresh Script suspends in \<open>loadedScript()\<close>; it stays suspended
  until the import settles and the continuation of that activation has run, and then
  finishes with the member, or with the failure of the import.
\<close>

lemma getObject_on_fresh_script:
  "(case perform (getObject ''p'' ''f'') call_loadedScript example_apply fresh of
      (s, Suspended c k) \<Rightarrow>
        snd (continue_method c k call_loadedScript example_apply s) = Suspended c k \<and>
        snd (continue_method c k call_loadedScript example_apply
               (run call_loadedScript [Fulfil 0 example_module, Resume 0] s))
          = Finished (Inr f3) \<and>
        snd (continue_method c k call_loadedScript example_apply
               (run call_loadedScript [Reject 0 (Foreign ''boom''), Resume 0] s))
          = Finished (Inl (Foreign ''boom''))
    | (s, Finished r) \<Rightarrow> False)"
  by (simp add: method_defs example_defs loader_defs continue_method_def Let_def)

text \<open>
  C7. Once a Script of src/load has loaded the script \<open>m\<close>, two successive calls of
  getObject with the same name, with anything happening before and between them, finish
  at once with the same outcome, the one that \<open>m\<close> determines; no import is started
  and \<open>#loadedScript\<close> is still \<open>m\<close> afterwards.
\<close>

theorem getObject_after_load_is_stable:
  assumes "loadedScript (run call_loadedScript evs fresh) = Some m"
  shows "let s = run call_loadedScript evs fresh;
             r1 = perform (getObject p n) call_loadedScript app (run call_loadedScript evsA s);
             r2 = perform (getObject p n) call_loadedScript app
                    (run call_loadedScript evsB (fst r1))
         in snd r1 = Finished (snd (exec (getObject p n) (Inr (Some m)) app)) \<and>
            snd r2 = snd r1 \<and>
            importCount (fst r2) = importCount s \<and>
            loadedScript (fst r2) = Some m"
proof -
  let ?s = "run call_loadedScript evs fresh"
  let ?s1 = "run call_loadedScript evsA ?s"
  let ?r1 = "perform (getObject p n) call_loadedScript app ?s1"
  let ?s2 = "run call_loadedScript evsB (fst ?r1)"
  let ?r2 = "perform (getObject p n) call_loadedScript app ?s2"
  have sf: "single_flight ?s" by (rule single_flight_reachable)
  have sf1: "single_flight ?s1" using sf by (rule single_flight_run)
  have l1: "loadedScript ?s1 = Some m" and c1: "importCount ?s1 = importCount ?s"
    using loaded_run [OF sf assms] by simp_all
  note r1 = perform_getObject_loaded_state [OF sf1 l1, of p n app]
  have sf2: "single_flight ?s2" using r1(2) by (rule single_flight_run)
  have l2: "loadedScript ?s2 = Some m" and c2: "importCount ?s2 = importCount (fst ?r1)"
    using loaded_run [OF r1(2) r1(3)] by simp_all
  note r2 = perform_getObject_loaded_state [OF sf2 l2, of p n app]
  have "snd ?r1 = Finished (snd (exec (getObject p n) (Inr (Some m)) app))" by (rule r1(1))
  moreover have "snd ?r2 = snd ?r1" using r1(1) r2(1) by simp
  moreover have "importCount (fst ?r2) = importCount ?s" using r2(4) c2 r1(4) c1 by simp
  moreover have "loadedScript (fst ?r2) = Some m" by (rule r2(3))
  ultimately show ?thesis unfolding Let_def by blast
qed

theorem getObject_after_load_is_stable_witness:
  "loadedScript (run call_loadedScript [Call, Fulfil 0 example_module] fresh)
     = Some example_module \<and>
   (let s = run call_loadedScript [Call, Fulfil 0 example_module] fresh;
        r1 = perform (getObject ''p'' ''f'') call_loadedScript example_apply
               (run call_loadedScript [Resume 0] s);
        r2 = perform (getObject ''p'' ''f'') call_loadedScript example_apply
               (run call_loadedScript [Call] (fst r1))
    in snd r1 = Finished (Inr f3) \<and> snd r2 = Finished (Inr f3) \<and>
       importCount (fst r2) = 1 \<and> loadedScript (fst r2) = Some example_module)"
proof -
  have h: "loadedScript (run call_loadedScript [Call, Fulfil 0 example_module] fresh)
             = Some example_module"
    by (simp add: loader_defs Let_def)
  have c: "importCount (run call_loadedScript [Call, Fulfil 0 example_module] fresh) = 1"
    by (simp add: loader_defs Let_def)
  have v: "snd (exec (getObject ''p'' ''f'') (Inr (Some example_module)) example_apply) = Inr f3"
    by (simp add: method_defs example_defs)
  from getObject_after_load_is_stable
         [OF h, where p = "''p''" and n = "''f''" and app = example_apply
            and evsA = "[Resume 0]" and evsB = "[Call]"]
       h c v
  show ?thesis by (simp add: Let_def)
qed

section \<open>Classification of members\<close>

text \<open>
  C8. Every value that \<open>isClass\<close> accepts is accepted by \<open>isFunction\<close>, and the
  inclusion is strict: an ordinary function is accepted by \<open>isFunction\<close> and refused by
  \<open>isClass\<close>.
\<close>

theorem isClass_strict_subset_isFunction:
  "(\<forall>v. isClass v \<longrightarrow> isFunction v) \<and>
   (isFunction (Fun 0 2 ''(a,b)=>a+b'') \<and> \<not> isClass (Fun 0 2 ''(a,b)=>a+b''))"
  by (simp add: isClass_def isFunction_def)

theorem isClass_strict_subset_isFunction_witness:
  "isClass (Fun 1 1 ''class {constructor(x){this.x = x}}'') \<and>
   isFunction (Fun 1 1 ''class {constructor(x){this.x = x}}'')"
proof -
  have c: "isClass (Fun 1 1 ''class {constructor(x){this.x = x}}'')"
    by (simp add: isClass_def regex_space_def)
  from isClass_strict_subset_isFunction have "isClass (Fun 1 1 ''class {constructor(x){this.x = x}}'') \<longrightarrow>
      isFunction (Fun 1 1 ''class {constructor(x){this.x = x}}'')"
    by blast
  with c show ?thesis by simp
qed

end
